theory Spec2Isabelle
  imports Main "HOL-Library.AList"
begin

section \<open>The frontend API server (cmd/frontendapi/apisrv/apisrv.go)\<close>

text \<open>
  The handlers of the frontend API are embedded as functions that return what the Go
  function returns together with the list of the effects it performs, in program order.
  What the Go code takes from outside the repository (the redigo connection pool, the
  Redis server, the clock, the scheduler) is an explicit argument of the model.
\<close>

subsection \<open>Errors\<close>

text \<open>A Go \<open>error\<close> is known to this code only through its message \<open>err.Error()\<close>.\<close>

datatype error = errors_New string

fun message :: "error \<Rightarrow> string" where
  "message (errors_New m) = m"

text \<open>The error \<open>redis.String\<close> returns for a nil reply (\<open>redis.ErrNil\<close> of redigo).\<close>

definition ErrNil :: error where
  "ErrNil = errors_New ''redigo: nil returned''"

subsection \<open>Durations\<close>

text \<open>Go's \<open>time.Duration\<close> counts nanoseconds; the clock of the model does too.\<close>

definition Second :: nat where
  "Second = 1000000000"

subsection \<open>The structured logger\<close>

text \<open>
  A logrus entry is known here through its data fields. \<open>entry.WithFields(fs)\<close> makes
  a new entry: the fields of the old one, overridden by \<open>fs\<close>. The package-level
  variable \<open>feLog\<close> is global mutable state: a function of the model that reads it
  takes its value, and a function that assigns it returns the new one.
\<close>

type_synonym Fields = "(string \<times> string) list"

definition WithFields :: "Fields \<Rightarrow> Fields \<Rightarrow> Fields" where
  "WithFields entry fs = fold (\<lambda>(k, v). AList.update k v) fs entry"

definition feLogFields :: Fields where
  "feLogFields =
     [(''app'', ''openmatch''),
      (''component'', ''frontend''),
      (''caller'', ''frontendapi/apisrv/apisrv.go'')]"

definition feLog_init :: Fields where
  "feLog_init = WithFields [] feLogFields"

datatype level = DebugLevel | InfoLevel | ErrorLevel

subsection \<open>Connections and effects\<close>

text \<open>
  \<open>pool.Get()\<close> and \<open>pool.GetContext(ctx)\<close> always return a handle: a live
  connection, or (redigo's \<open>errorConn\<close>) a handle that carries the error of the failed
  acquisition.
\<close>

datatype conn = LiveConn | ErrorConn error

text \<open>
  The effects, in the order of the constructors: a call of the logger (level, fields,
  message); \<open>stats.Record\<close> (tags, measure); a handle taken from the pool; \<open>Close\<close>
  on a handle; a command sent with \<open>Do\<close>; \<open>time.Sleep\<close>; the select taking its
  \<open>default\<close> case; the select taking its \<open>ctx.Done()\<close> case; a completed send on
  the channel of the watcher; \<open>close\<close> of that channel.
\<close>

datatype event =
    Log level Fields string
  | Record Fields string
  | PoolGet conn
  | Close conn
  | Do string "string list"
  | Sleep nat
  | Default
  | CtxDone
  | Send string
  | CloseChan

subsection \<open>Requests and replies of the gRPC service\<close>

record Group =
  Id' :: string
  Properties :: string

record Result =
  Success :: bool
  Error :: string

subsection \<open>CreateRequest, DeleteRequest, DeleteAssignment\<close>

text \<open>
  \<open>playerq.Create\<close> and \<open>playerq.Delete\<close> live in a package outside this file; the
  handlers take them as the arguments \<open>Create\<close> and \<open>Delete\<close>. \<open>redisConn\<close> is the
  handle \<open>s.pool.Get()\<close> returns. The deferred \<open>redisConn.Close()\<close> is the last effect
  of each return path.
\<close>

definition CreateRequest ::
  "Fields \<Rightarrow> conn \<Rightarrow> (conn \<Rightarrow> string \<Rightarrow> string \<Rightarrow> error option) \<Rightarrow> Group
     \<Rightarrow> (Result \<times> error option) \<times> event list" where
  "CreateRequest feLog redisConn Create g =
     (let funcName = ''CreateRequest'';
          fnCtx = [(''KeyMethod'', funcName)];
          err = Create redisConn (Id' g) (Properties g)
      in case err of
           Some e \<Rightarrow>
             ((\<lparr>Success = False, Error = message e\<rparr>, err),
              [PoolGet redisConn,
               Log ErrorLevel
                 (WithFields feLog [(''error'', message e), (''component'', ''statestorage'')])
                 ''State storage error'',
               Record fnCtx ''FeGrpcErrors'',
               Close redisConn])
         | None \<Rightarrow>
             ((\<lparr>Success = True, Error = ''''\<rparr>, err),
              [PoolGet redisConn,
               Record fnCtx ''FeGrpcRequests'',
               Close redisConn]))"

definition DeleteRequest ::
  "Fields \<Rightarrow> conn \<Rightarrow> (conn \<Rightarrow> string \<Rightarrow> error option) \<Rightarrow> Group
     \<Rightarrow> (Result \<times> error option) \<times> event list" where
  "DeleteRequest feLog redisConn Delete g =
     (let funcName = ''DeleteRequest'';
          fnCtx = [(''KeyMethod'', funcName)];
          err = Delete redisConn (Id' g)
      in case err of
           Some e \<Rightarrow>
             ((\<lparr>Success = False, Error = message e\<rparr>, err),
              [PoolGet redisConn,
               Log ErrorLevel
                 (WithFields feLog [(''error'', message e), (''component'', ''statestorage'')])
                 ''State storage error'',
               Record fnCtx ''FeGrpcErrors'',
               Close redisConn])
         | None \<Rightarrow>
             ((\<lparr>Success = True, Error = ''''\<rparr>, err),
              [PoolGet redisConn,
               Record fnCtx ''FeGrpcRequests'',
               Close redisConn]))"

definition DeleteAssignment ::
  "Fields \<Rightarrow> conn \<Rightarrow> (conn \<Rightarrow> string \<Rightarrow> error option) \<Rightarrow> string
     \<Rightarrow> (Result \<times> error option) \<times> event list" where
  "DeleteAssignment feLog redisConn Delete p_Id =
     (let funcName = ''DeleteAssignment'';
          fnCtx = [(''KeyMethod'', funcName)];
          err = Delete redisConn p_Id
      in case err of
           Some e \<Rightarrow>
             ((\<lparr>Success = False, Error = message e\<rparr>, err),
              [PoolGet redisConn,
               Log ErrorLevel
                 (WithFields feLog [(''error'', message e), (''component'', ''statestorage'')])
                 ''State storage error'',
               Record fnCtx ''FeGrpcErrors'',
               Close redisConn])
         | None \<Rightarrow>
             ((\<lparr>Success = True, Error = ''''\<rparr>, err),
              [PoolGet redisConn,
               Record fnCtx ''FeGrpcRequests'',
               Close redisConn]))"

subsection \<open>Configuration\<close>

text \<open>
  The keys of the configuration file (config/matchmaker_config.json) this development
  refers to, with the values the repository ships.
\<close>

record ignoreList =
  name :: string
  offset :: int
  duration :: int

record config =
  jsonkeys_connstring :: string
  interval_resultsTimeout :: nat
  ignoreLists :: "(string \<times> ignoreList) list"

definition matchmaker_config :: config where
  "matchmaker_config =
     \<lparr>jsonkeys_connstring = ''connstring'',
      interval_resultsTimeout = 30,
      ignoreLists =
        [(''proposed'', \<lparr>name = ''proposed'', offset = 0, duration = 800\<rparr>),
         (''deindexed'', \<lparr>name = ''deindexed'', offset = 0, duration = 800\<rparr>),
         (''expired'', \<lparr>name = ''timestamp'', offset = 800, duration = 0\<rparr>)]\<rparr>"

subsection \<open>Contexts\<close>

text \<open>
  A \<open>context.Context\<close> is known here through \<open>ctx.Done()\<close> only: it is the instant
  at which the context is cancelled, if it ever is. \<open>WithCancel c at\<close> is the context
  derived from \<open>c\<close> whose \<open>cancel\<close> function is called at instant \<open>at\<close> (never, for
  \<open>None\<close>).
\<close>

type_synonym Context = "nat option"

definition Done :: "Context \<Rightarrow> nat \<Rightarrow> bool" where
  "Done ctx t = (case ctx of None \<Rightarrow> False | Some c \<Rightarrow> c \<le> t)"

definition WithCancel :: "Context \<Rightarrow> nat option \<Rightarrow> Context" where
  "WithCancel c at =
     (case c of
        None \<Rightarrow> at
      | Some a \<Rightarrow> (case at of None \<Rightarrow> Some a | Some b \<Rightarrow> Some (min a b)))"

subsection \<open>The state storage seen by one poll\<close>

text \<open>
  Each call of \<open>retrieveConnstring\<close> meets the outside world once. A \<open>poll\<close> says
  what it meets: whether \<open>pool.GetContext\<close> fails, whether \<open>redisConn.Do\<close> fails
  (in transport, or with an error reply of the server), the content of the store when
  \<open>HGET\<close> executes (hash key and field to value), and how long the whole call takes.
  The pool, the connection and the server are redigo's and Redis's: what they answer is
  given, not computed.
\<close>

record poll =
  acquire :: "error option"
  transport :: "error option"
  snapshot :: "string \<times> string \<Rightarrow> string option"
  latency :: nat

datatype reply = Bulk string | Nil

definition GetContext :: "poll \<Rightarrow> conn \<times> error option" where
  "GetContext p =
     (case acquire p of Some e \<Rightarrow> (ErrorConn e, Some e) | None \<Rightarrow> (LiveConn, None))"

text \<open>Redis \<open>HGET key field\<close>: the value of the field, or a nil reply when it is absent.\<close>

definition HGET :: "poll \<Rightarrow> string \<Rightarrow> string \<Rightarrow> reply \<times> error option" where
  "HGET p key field =
     (case transport p of
        Some e \<Rightarrow> (Nil, Some e)
      | None \<Rightarrow>
          (case snapshot p (key, field) of None \<Rightarrow> (Nil, None) | Some v \<Rightarrow> (Bulk v, None)))"

text \<open>redigo's \<open>redis.String(reply, err)\<close>.\<close>

fun redis_String :: "reply \<times> error option \<Rightarrow> string \<times> error option" where
  "redis_String (_, Some e) = ('''', Some e)"
| "redis_String (Bulk v, None) = (v, None)"
| "redis_String (Nil, None) = ('''', Some ErrNil)"

subsection \<open>retrieveConnstring\<close>

text \<open>
  Returns the pair the Go function returns, the new value of the global \<open>feLog\<close>
  (the function assigns it) and the effects. \<open>redisConn.Close()\<close> is deferred before
  the error of the acquisition is looked at, so it ends both return paths.
\<close>

definition retrieveConnstring ::
  "Fields \<Rightarrow> poll \<Rightarrow> string \<Rightarrow> string \<Rightarrow> (string \<times> error option) \<times> Fields \<times> event list" where
  "retrieveConnstring feLog p key field =
     (let feLog1 = WithFields feLog [(''key'', key)];
          cmd = ''HGET'';
          operation =
            Log DebugLevel (WithFields feLog1 [(''query'', cmd)]) ''Statestorage operation'';
          (redisConn, err) = GetContext p
      in case err of
           Some e \<Rightarrow>
             (('''', err), feLog1,
              [operation,
               PoolGet redisConn,
               Log ErrorLevel (WithFields feLog1 [(''error'', message e), (''query'', cmd)])
                 ''Statestorage connection error'',
               Close redisConn])
         | None \<Rightarrow>
             (redis_String (HGET p key field), feLog1,
              [operation,
               PoolGet redisConn,
               Do ''HGET'' [key, field],
               Close redisConn]))"

subsection \<open>watcher\<close>

text \<open>
  The life of the goroutine that \<open>watcher\<close> starts. \<open>Polling\<close>: still in the loop
  when the polls listed for it ran out. \<open>AtSend v\<close>: out of the loop with the value
  \<open>v\<close>, in front of the send. \<open>Blocked v\<close>: in the send with nobody receiving.
  \<open>Delivered v\<close>: sent, closed the channel and returned. \<open>Cancelled\<close>: saw
  \<open>ctx.Done()\<close>, closed the channel and returned.
\<close>

datatype status = Polling | AtSend string | Blocked string | Delivered string | Cancelled

record run =
  trace :: "event list"
  logger :: Fields
  clock :: nat
  status :: status

text \<open>
  The loop \<open>for err != nil { select { case <-ctx.Done(): ... default: ... } }\<close>. It is
  entered with a non-nil \<open>err\<close>, so its body runs at least once; one element of the
  list of polls is consumed by each call of \<open>retrieveConnstring\<close>. The loop may run
  for ever: the list is the fuel, and \<open>Polling\<close> says it ran out. The clock starts
  at the instant \<open>t\<close> of the first select; a call of \<open>retrieveConnstring\<close> lasts the
  latency of its poll and \<open>time.Sleep\<close> lasts the 5 seconds it is asked for.
\<close>

fun watch_loop :: "config \<Rightarrow> Context \<Rightarrow> string \<Rightarrow> poll list \<Rightarrow> Fields \<Rightarrow> nat \<Rightarrow> run" where
  "watch_loop cfg ctx key [] feLog t =
     \<lparr>trace = [], logger = feLog, clock = t, status = Polling\<rparr>"
| "watch_loop cfg ctx key (p # ps) feLog t =
     (if Done ctx t then
        \<lparr>trace = [CtxDone, CloseChan], logger = feLog, clock = t, status = Cancelled\<rparr>
      else
        (case retrieveConnstring feLog p key (jsonkeys_connstring cfg) of
           ((results, Some e), feLog1, effects) \<Rightarrow>
             (let rest = watch_loop cfg ctx key ps feLog1 (t + latency p + 5 * Second)
              in rest\<lparr>trace := Default # effects @ Sleep (5 * Second) # trace rest\<rparr>)
         | ((results, None), feLog1, effects) \<Rightarrow>
             \<lparr>trace = Default # effects, logger = feLog1, clock = t + latency p,
              status = AtSend results\<rparr>))"

text \<open>
  The goroutine: the loop, then \<open>watchChan <- results\<close> and \<open>close(watchChan)\<close>.
  The channel is unbuffered: the send completes only if a receiver is waiting, which
  \<open>recv\<close> tells for each instant. The only receiver of the channel is the select of
  GetAssignment, which leaves for good: a send that finds nobody stays blocked.
\<close>

definition watcher_go ::
  "config \<Rightarrow> Context \<Rightarrow> (nat \<Rightarrow> bool) \<Rightarrow> string \<Rightarrow> poll list \<Rightarrow> Fields \<Rightarrow> nat \<Rightarrow> run" where
  "watcher_go cfg ctx recv key script feLog t =
     (let w = watch_loop cfg ctx key script feLog t
      in case status w of
           AtSend results \<Rightarrow>
             (let detected =
                    Log DebugLevel (logger w) ''Statestorage watched record update detected''
              in if recv (clock w)
                 then w\<lparr>trace := trace w @ [detected, Send results, CloseChan],
                        status := Delivered results\<rparr>
                 else w\<lparr>trace := trace w @ [detected], status := Blocked results\<rparr>)
         | _ \<Rightarrow> w)"

text \<open>\<open>watcher\<close> itself assigns \<open>feLog\<close>, logs, makes the channel and starts the goroutine.\<close>

definition watcher ::
  "config \<Rightarrow> Context \<Rightarrow> (nat \<Rightarrow> bool) \<Rightarrow> string \<Rightarrow> poll list \<Rightarrow> Fields \<Rightarrow> nat \<Rightarrow> run" where
  "watcher cfg ctx recv key script feLog t =
     (let feLog1 = WithFields feLog [(''key'', key)];
          g = watcher_go cfg ctx recv key script feLog1 t
      in g\<lparr>trace :=
             Log DebugLevel feLog1 ''Watching key in statestorage for changes'' # trace g\<rparr>)"

subsection \<open>GetAssignment\<close>

record answer =
  ConnectionString :: string
  err :: "error option"
  returned_at :: nat
  effects :: "event list"

definition watch_timeout :: error where
  "watch_timeout = errors_New ''did not see matchmaking results in redis before timeout''"

text \<open>
  GetAssignment is called at instant 0 with the caller's context \<open>c\<close>. Until its select
  has chosen, the derived context \<open>ctx\<close> is done exactly when \<open>c\<close> is, and the select
  is waiting on the channel: the first instant at which the goroutine offers a value or
  closes the channel is that of the goroutine run under \<open>c\<close> with a receiver always there.
  The select takes the channel if that instant comes before the 30 seconds of
  \<open>time.After\<close>, the timer if it comes after; when both are ready at the same instant
  Go chooses either, which \<open>tie\<close> decides (\<open>True\<close> for the channel). A receive from the
  closed channel yields the empty string. \<open>None\<close>: the polls listed ran out before the
  select could choose.
\<close>

definition GetAssignment ::
  "config \<Rightarrow> Context \<Rightarrow> bool \<Rightarrow> string \<Rightarrow> poll list \<Rightarrow> Fields \<Rightarrow> answer option" where
  "GetAssignment cfg c tie p_Id script feLog =
     (let funcName = ''GetAssignment'';
          fnCtx = [(''KeyMethod'', funcName)];
          w = watcher cfg c (\<lambda>t. True) p_Id script feLog 0;
          first = (clock w < 30 * Second \<or> (clock w = 30 * Second \<and> tie));
          timed_out =
            \<lparr>ConnectionString = '''', err = Some watch_timeout, returned_at = 30 * Second,
             effects =
               [Log ErrorLevel
                  (WithFields (logger w)
                     [(''error'', message watch_timeout), (''component'', ''statestorage''),
                      (''playerid'', p_Id)])
                  ''State storage error'',
                Record [(''errtype'', ''watch_timeout'')] ''FeGrpcErrors'']\<rparr>;
          received = (\<lambda>connString.
            \<lparr>ConnectionString = connString, err = None, returned_at = clock w,
             effects =
               [Log DebugLevel (logger w) (p_Id @ ''connString:'' @ connString),
                Record fnCtx ''FeGrpcRequests'']\<rparr>)
      in case status w of
           Delivered connString \<Rightarrow> Some (if first then received connString else timed_out)
         | Cancelled \<Rightarrow> Some (if first then received '''' else timed_out)
         | _ \<Rightarrow> if 30 * Second < clock w then Some timed_out else None)"

text \<open>
  The goroutine GetAssignment leaves behind. The deferred \<open>cancel()\<close> runs when
  GetAssignment returns, after its select has chosen: the derived context is done from
  the next instant on. The receiver is there as long as the select is.
\<close>

definition GetAssignment_goroutine ::
  "config \<Rightarrow> Context \<Rightarrow> bool \<Rightarrow> string \<Rightarrow> poll list \<Rightarrow> Fields \<Rightarrow> run option" where
  "GetAssignment_goroutine cfg c tie p_Id script feLog =
     (case GetAssignment cfg c tie p_Id script feLog of
        None \<Rightarrow> None
      | Some a \<Rightarrow>
          Some (watcher cfg (WithCancel c (Some (Suc (returned_at a))))
                  (\<lambda>t. t < 30 * Second \<or> (t = 30 * Second \<and> tie)) p_Id script feLog 0))"

subsection \<open>Observations on the effects\<close>

text \<open>
  Projections of a list of effects: the operations on the channel, the sends, the
  sleeps, the commands sent to the store, the handles taken from the pool and the handles
  closed, each in program order.
\<close>

fun is_chan :: "event \<Rightarrow> bool" where
  "is_chan (Send v) = True"
| "is_chan CloseChan = True"
| "is_chan _ = False"

fun is_Send :: "event \<Rightarrow> bool" where
  "is_Send (Send v) = True"
| "is_Send _ = False"

fun is_Sleep :: "event \<Rightarrow> bool" where
  "is_Sleep (Sleep d) = True"
| "is_Sleep _ = False"

fun is_Do :: "event \<Rightarrow> bool" where
  "is_Do (Do cmd args) = True"
| "is_Do _ = False"

fun acquired :: "event list \<Rightarrow> conn list" where
  "acquired [] = []"
| "acquired (PoolGet h # es) = h # acquired es"
| "acquired (_ # es) = acquired es"

fun closed :: "event list \<Rightarrow> conn list" where
  "closed [] = []"
| "closed (Close h # es) = h # closed es"
| "closed (_ # es) = closed es"

definition channel_ops :: "run \<Rightarrow> event list" where
  "channel_ops r = filter is_chan (trace r)"

text \<open>The goroutine has returned: it delivered its value, or it observed the cancellation.\<close>

definition returned :: "status \<Rightarrow> bool" where
  "returned s = (case s of Delivered v \<Rightarrow> True | Cancelled \<Rightarrow> True | _ \<Rightarrow> False)"


fun delays :: "event list \<Rightarrow> nat list" where
  "delays [] = []"
| "delays (Sleep d # es) = d # delays es"
| "delays (_ # es) = delays es"





definition closes :: "run \<Rightarrow> nat" where
  "closes r = length (filter (\<lambda>e. e = CloseChan) (trace r))"

definition sends :: "run \<Rightarrow> nat" where
  "sends r = length (filter is_Send (trace r))"

subsection \<open>Environments used in the examples\<close>

text \<open>
  A receiver that never leaves; a poll that finds the store reachable and the record
  without a connection string; a poll that finds the connection string \<open>v\<close> on the
  record \<open>key\<close> after \<open>l\<close> nanoseconds; a poll that finds the pool exhausted;
  ledger operations that succeed and a create that fails; two requests; seven polls that
  never find a connection string; five such polls followed by one that starts at second
  25, lasts 6 seconds and finds the connection string.
\<close>

definition listening :: "nat \<Rightarrow> bool" where
  "listening t = True"

definition record_absent :: poll where
  "record_absent = \<lparr>acquire = None, transport = None, snapshot = (\<lambda>k. None), latency = 0\<rparr>"

definition record_present :: "string \<Rightarrow> string \<Rightarrow> nat \<Rightarrow> poll" where
  "record_present key v l =
     \<lparr>acquire = None, transport = None,
      snapshot = (\<lambda>k. if k = (key, ''connstring'') then Some v else None), latency = l\<rparr>"

definition Create_succeeds :: "conn \<Rightarrow> string \<Rightarrow> string \<Rightarrow> error option" where
  "Create_succeeds h i props = None"

definition Create_fails :: "conn \<Rightarrow> string \<Rightarrow> string \<Rightarrow> error option" where
  "Create_fails h i props = Some (errors_New ''connection refused'')"

definition Delete_succeeds :: "conn \<Rightarrow> string \<Rightarrow> error option" where
  "Delete_succeeds h i = None"

definition player1 :: Group where
  "player1 = \<lparr>Id' = ''p1'', Properties = ''{}''\<rparr>"

definition pool_exhausted :: poll where
  "pool_exhausted =
     \<lparr>acquire = Some (errors_New ''redigo: connection pool exhausted''), transport = None,
      snapshot = (\<lambda>k. None), latency = 0\<rparr>"

definition player2 :: Group where
  "player2 = \<lparr>Id' = ''p2'', Properties = ''{}''\<rparr>"

definition never_assigned :: "poll list" where
  "never_assigned =
     [record_absent, record_absent, record_absent, record_absent, record_absent, record_absent,
      record_absent]"

definition assigned_late :: "poll list" where
  "assigned_late =
     [record_absent, record_absent, record_absent, record_absent, record_absent,
      record_present ''p1'' ''10.0.0.5:7777'' (6 * Second)]"

subsection \<open>Ignore lists\<close>

text \<open>
  The sources hold the configuration of the three ignore lists (name, offset, duration)
  and nothing of the visibility filter that uses them. The state of the filter gives, for
  a list name and a player id, the insertion time of the entry if there is one. Times,
  offsets and durations are seconds.
\<close>

type_synonym ignore_state = "string \<Rightarrow> string \<Rightarrow> int option"

text \<open>
  Modelled from the spec: \<open>MarkExcluded\<close> of the visibility filter is missing from the
  sources. Section 4.3 of the specification: it inserts an entry with the current time,
  and is a no-op if the id is already present with a newer timestamp.
\<close>

definition MarkExcluded :: "ignore_state \<Rightarrow> string \<Rightarrow> string \<Rightarrow> int \<Rightarrow> ignore_state" where
  "MarkExcluded st listName pid now =
     (case st listName pid of
        Some newer \<Rightarrow>
          if now < newer then st else st(listName := (st listName)(pid \<mapsto> now))
      | None \<Rightarrow> st(listName := (st listName)(pid \<mapsto> now)))"

text \<open>
  Modelled from the spec: \<open>IsVisible\<close> of the visibility filter is missing from the
  sources. Section 4.3 of the specification: true unless an entry exists with
  insertion-time + offset \<open>\<le>\<close> now \<open><\<close> insertion-time + offset + duration or, for a
  list of duration zero, true unless now \<open>\<ge>\<close> insertion-time + offset.
\<close>

definition IsVisible :: "ignoreList \<Rightarrow> ignore_state \<Rightarrow> string \<Rightarrow> int \<Rightarrow> bool" where
  "IsVisible L st pid now =
     (case st (name L) pid of
        None \<Rightarrow> True
      | Some inserted \<Rightarrow>
          if duration L = 0 then \<not> (inserted + offset L \<le> now)
          else \<not> (inserted + offset L \<le> now \<and> now < inserted + offset L + duration L))"

text \<open>
  A filter with no entry, and two of the lists of the configuration file: \<open>proposed\<close>
  and \<open>expired\<close> (whose name in the store is \<open>timestamp\<close>).
\<close>

definition no_entries :: ignore_state where
  "no_entries listName pid = None"

definition proposed :: ignoreList where
  "proposed = \<lparr>name = ''proposed'', offset = 0, duration = 800\<rparr>"

definition expired :: ignoreList where
  "expired = \<lparr>name = ''timestamp'', offset = 800, duration = 0\<rparr>"

section \<open>Properties\<close>

subsection \<open>Facts about retrieveConnstring\<close>

text \<open>
  The two return paths of \<open>retrieveConnstring\<close> in closed form, and what its effects
  never contain.
\<close>

lemma retrieveConnstring_failed_acquire:
  "acquire p = Some e \<Longrightarrow>
   retrieveConnstring feLog p key field =
     (('''', Some e), WithFields feLog [(''key'', key)],
      [Log DebugLevel (WithFields (WithFields feLog [(''key'', key)]) [(''query'', ''HGET'')])
         ''Statestorage operation'',
       PoolGet (ErrorConn e),
       Log ErrorLevel
         (WithFields (WithFields feLog [(''key'', key)])
            [(''error'', message e), (''query'', ''HGET'')])
         ''Statestorage connection error'',
       Close (ErrorConn e)])"
  by (simp add: retrieveConnstring_def GetContext_def Let_def)

lemma retrieveConnstring_live:
  "acquire p = None \<Longrightarrow>
   retrieveConnstring feLog p key field =
     (redis_String (HGET p key field), WithFields feLog [(''key'', key)],
      [Log DebugLevel (WithFields (WithFields feLog [(''key'', key)]) [(''query'', ''HGET'')])
         ''Statestorage operation'',
       PoolGet LiveConn,
       Do ''HGET'' [key, field],
       Close LiveConn])"
  by (simp add: retrieveConnstring_def GetContext_def Let_def)

lemma retrieveConnstring_effects:
  "\<exists>l h x. snd (snd (retrieveConnstring feLog p key field))
             = [Log DebugLevel l ''Statestorage operation'', PoolGet h, x, Close h]
           \<and> ((\<exists>l' m. x = Log ErrorLevel l' m) \<or> x = Do ''HGET'' [key, field])"
  by (cases "acquire p") (simp_all add: retrieveConnstring_failed_acquire retrieveConnstring_live)

lemma retrieveConnstring_no_chan [simp]:
  "filter is_chan (snd (snd (retrieveConnstring feLog p key field))) = []"
  using retrieveConnstring_effects [of feLog p key field] by auto

lemma retrieveConnstring_no_Sleep [simp]:
  "filter is_Sleep (snd (snd (retrieveConnstring feLog p key field))) = []"
  using retrieveConnstring_effects [of feLog p key field] by auto

lemma retrieveConnstring_no_CtxDone [simp]:
  "CtxDone \<notin> set (snd (snd (retrieveConnstring feLog p key field)))"
  using retrieveConnstring_effects [of feLog p key field] by auto

lemma retrieveConnstring_value:
  "fst (retrieveConnstring feLog p key field) =
     (case acquire p of
        Some e \<Rightarrow> ('''', Some e)
      | None \<Rightarrow> redis_String (HGET p key field))"
  by (cases "acquire p") (simp_all add: retrieveConnstring_failed_acquire retrieveConnstring_live)

lemma retrieveConnstring_succeeds_iff:
  "snd (fst (retrieveConnstring feLog p key field)) = None
     \<longleftrightarrow> acquire p = None \<and> transport p = None \<and> snapshot p (key, field) \<noteq> None"
  by (auto simp: retrieveConnstring_value HGET_def split: option.splits)

subsection \<open>Facts about the projections\<close>

lemma closed_append [simp]: "closed (xs @ ys) = closed xs @ closed ys"
  by (induction xs rule: closed.induct) simp_all

lemma acquired_append [simp]: "acquired (xs @ ys) = acquired xs @ acquired ys"
  by (induction xs rule: acquired.induct) simp_all

lemma delays_append [simp]: "delays (xs @ ys) = delays xs @ delays ys"
  by (induction xs rule: delays.induct) simp_all

lemma retrieveConnstring_balanced [simp]:
  "closed (snd (snd (retrieveConnstring feLog p key field)))
     = acquired (snd (snd (retrieveConnstring feLog p key field)))"
  using retrieveConnstring_effects [of feLog p key field] by auto





lemma Done_mono: "Done ctx t \<Longrightarrow> t \<le> t' \<Longrightarrow> Done ctx t'"
  by (auto simp: Done_def split: option.splits)

lemma WithCancel_before:
  "t \<le> T \<Longrightarrow> Done (WithCancel c (Some (Suc T))) t = Done c t"
  by (auto simp: WithCancel_def Done_def split: option.splits)



subsection \<open>Facts about the loop\<close>

text \<open>
  Each fact is proved by induction on the list of polls, with the logger and the clock
  generalised, following the three branches of one iteration: the context is done, the
  read fails, the read succeeds.
\<close>

lemma watch_loop_chan:
  "filter is_chan (trace (watch_loop cfg ctx key ps feLog t))
     = (if status (watch_loop cfg ctx key ps feLog t) = Cancelled then [CloseChan] else [])
   \<and> (\<forall>v. status (watch_loop cfg ctx key ps feLog t) \<noteq> Delivered v
          \<and> status (watch_loop cfg ctx key ps feLog t) \<noteq> Blocked v)"
proof (induction ps arbitrary: feLog t)
  case Nil
  show ?case by simp
next
  case (Cons p ps)
  show ?case
  proof (cases "Done ctx t")
    case True
    then show ?thesis by simp
  next
    case False
    obtain results e feLog1 effs where r:
      "retrieveConnstring feLog p key (jsonkeys_connstring cfg) = ((results, e), feLog1, effs)"
      by (metis prod.exhaust)
    have nochan: "filter is_chan effs = []"
      using retrieveConnstring_no_chan [of feLog p key "jsonkeys_connstring cfg"] r by simp
    show ?thesis
    proof (cases e)
      case None
      with False r nochan show ?thesis by simp
    next
      case (Some a)
      with False r nochan Cons.IH [of feLog1 "t + latency p + 5 * Second"]
      show ?thesis by (simp add: Let_def)
    qed
  qed
qed

lemma watch_loop_status:
  "status (watch_loop cfg ctx key ps feLog t) = Polling
   \<or> (\<exists>v. status (watch_loop cfg ctx key ps feLog t) = AtSend v)
   \<or> status (watch_loop cfg ctx key ps feLog t) = Cancelled"
  using watch_loop_chan [of cfg ctx key ps feLog t]
  by (cases "status (watch_loop cfg ctx key ps feLog t)") auto

lemma watch_loop_cancelled:
  "(status (watch_loop cfg ctx key ps feLog t) = Cancelled
      \<longleftrightarrow> CtxDone \<in> set (trace (watch_loop cfg ctx key ps feLog t)))
   \<and> (status (watch_loop cfg ctx key ps feLog t) = Cancelled \<longrightarrow>
        (\<exists>pre. trace (watch_loop cfg ctx key ps feLog t) = pre @ [CtxDone, CloseChan]
            \<and> CtxDone \<notin> set pre \<and> closed pre = acquired pre))
   \<and> closed (trace (watch_loop cfg ctx key ps feLog t))
        = acquired (trace (watch_loop cfg ctx key ps feLog t))"
proof (induction ps arbitrary: feLog t)
  case Nil
  show ?case by simp
next
  case (Cons p ps)
  show ?case
  proof (cases "Done ctx t")
    case True
    then show ?thesis by simp
  next
    case False
    obtain results e feLog1 effs where r:
      "retrieveConnstring feLog p key (jsonkeys_connstring cfg) = ((results, e), feLog1, effs)"
      by (metis prod.exhaust)
    have effs: "CtxDone \<notin> set effs" "closed effs = acquired effs"
      using retrieveConnstring_no_CtxDone [of feLog p key "jsonkeys_connstring cfg"]
        retrieveConnstring_balanced [of feLog p key "jsonkeys_connstring cfg"] r by simp_all
    show ?thesis
    proof (cases e)
      case None
      with False r effs show ?thesis by simp
    next
      case (Some a)
      let ?rest = "watch_loop cfg ctx key ps feLog1 (t + latency p + 5 * Second)"
      have step: "watch_loop cfg ctx key (p # ps) feLog t
          = ?rest\<lparr>trace := Default # effs @ Sleep (5 * Second) # trace ?rest\<rparr>"
        using False r Some by (simp add: Let_def)
      note IH = Cons.IH [of feLog1 "t + latency p + 5 * Second"]
      have a: "(status (watch_loop cfg ctx key (p # ps) feLog t) = Cancelled)
                 = (CtxDone \<in> set (trace (watch_loop cfg ctx key (p # ps) feLog t)))"
        using IH effs by (simp add: step del: watch_loop.simps)
      have b: "status (watch_loop cfg ctx key (p # ps) feLog t) = Cancelled \<longrightarrow>
        (\<exists>pre. trace (watch_loop cfg ctx key (p # ps) feLog t) = pre @ [CtxDone, CloseChan]
            \<and> CtxDone \<notin> set pre \<and> closed pre = acquired pre)"
      proof
        assume "status (watch_loop cfg ctx key (p # ps) feLog t) = Cancelled"
        then have "status ?rest = Cancelled" by (simp add: step del: watch_loop.simps)
        with IH obtain pre where pre: "trace ?rest = pre @ [CtxDone, CloseChan]"
          "CtxDone \<notin> set pre" "closed pre = acquired pre" by blast
        let ?pre = "Default # effs @ Sleep (5 * Second) # pre"
        have "trace (watch_loop cfg ctx key (p # ps) feLog t) = ?pre @ [CtxDone, CloseChan]"
          using pre by (simp add: step del: watch_loop.simps)
        moreover have "CtxDone \<notin> set ?pre" using pre effs by simp
        moreover have "closed ?pre = acquired ?pre" using pre effs by simp
        ultimately show "\<exists>pre. trace (watch_loop cfg ctx key (p # ps) feLog t)
              = pre @ [CtxDone, CloseChan] \<and> CtxDone \<notin> set pre \<and> closed pre = acquired pre"
          by blast
      qed
      have c: "closed (trace (watch_loop cfg ctx key (p # ps) feLog t))
                 = acquired (trace (watch_loop cfg ctx key (p # ps) feLog t))"
        using IH effs by (simp add: step del: watch_loop.simps)
      from a b c show ?thesis by blast
    qed
  qed
qed


lemma watch_loop_config:
  "jsonkeys_connstring cfg' = jsonkeys_connstring cfg
     \<Longrightarrow> watch_loop cfg' ctx key ps feLog t = watch_loop cfg ctx key ps feLog t"
  by (induction ps arbitrary: feLog t) (simp_all add: Let_def split: prod.splits option.splits)

lemma watch_loop_no_record:
  assumes "\<forall>p\<in>set ps. snapshot p (key, jsonkeys_connstring cfg) = None"
  shows "(status (watch_loop cfg ctx key ps feLog t) = Polling
            \<and> t + length ps * (5 * Second) \<le> clock (watch_loop cfg ctx key ps feLog t))
         \<or> (status (watch_loop cfg ctx key ps feLog t) = Cancelled
            \<and> Done ctx (clock (watch_loop cfg ctx key ps feLog t)))"
  using assms
proof (induction ps arbitrary: feLog t)
  case Nil
  show ?case by simp
next
  case (Cons p ps)
  show ?case
  proof (cases "Done ctx t")
    case True
    then show ?thesis by simp
  next
    case False
    obtain results e feLog1 effs where r:
      "retrieveConnstring feLog p key (jsonkeys_connstring cfg) = ((results, e), feLog1, effs)"
      by (metis prod.exhaust)
    have "snapshot p (key, jsonkeys_connstring cfg) = None" using Cons.prems by simp
    then have "e \<noteq> None"
      using retrieveConnstring_succeeds_iff [of feLog p key "jsonkeys_connstring cfg"] r by simp
    then obtain a where e: "e = Some a" by blast
    let ?rest = "watch_loop cfg ctx key ps feLog1 (t + latency p + 5 * Second)"
    have step: "watch_loop cfg ctx key (p # ps) feLog t
        = ?rest\<lparr>trace := Default # effs @ Sleep (5 * Second) # trace ?rest\<rparr>"
      using False r e by (simp add: Let_def)
    have "(status ?rest = Polling
            \<and> (t + latency p + 5 * Second) + length ps * (5 * Second) \<le> clock ?rest)
         \<or> (status ?rest = Cancelled \<and> Done ctx (clock ?rest))"
      using Cons.IH [of feLog1 "t + latency p + 5 * Second"] Cons.prems by simp
    then show ?thesis unfolding step by auto
  qed
qed

lemma watch_loop_clock: "t \<le> clock (watch_loop cfg ctx key ps feLog t)"
proof (induction ps arbitrary: feLog t)
  case Nil
  show ?case by simp
next
  case (Cons p ps)
  obtain results e feLog1 effs where r:
    "retrieveConnstring feLog p key (jsonkeys_connstring cfg) = ((results, e), feLog1, effs)"
    by (metis prod.exhaust)
  show ?case
    using r Cons.IH [of "t + latency p + 5 * Second" feLog1]
    by (cases e) (auto simp: Let_def)
qed

lemma watch_loop_agree:
  assumes "\<forall>t'\<le>T. Done ctx' t' = Done ctx t'"
      and "clock (watch_loop cfg ctx key ps feLog t) \<le> T"
  shows "watch_loop cfg ctx' key ps feLog t = watch_loop cfg ctx key ps feLog t"
  using assms(2)
proof (induction ps arbitrary: feLog t)
  case Nil
  show ?case by simp
next
  case (Cons p ps)
  have "t \<le> T"
    using watch_loop_clock [of t cfg ctx key "p # ps" feLog] Cons.prems by simp
  then have same: "Done ctx' t = Done ctx t" using assms(1) by simp
  show ?case
  proof (cases "Done ctx t")
    case True
    with same show ?thesis by simp
  next
    case False
    obtain results e feLog1 effs where r:
      "retrieveConnstring feLog p key (jsonkeys_connstring cfg) = ((results, e), feLog1, effs)"
      by (metis prod.exhaust)
    show ?thesis
    proof (cases e)
      case None
      with False same r show ?thesis by simp
    next
      case (Some a)
      have "clock (watch_loop cfg ctx key ps feLog1 (t + latency p + 5 * Second)) \<le> T"
        using Cons.prems False r Some by (simp add: Let_def)
      then have "watch_loop cfg ctx' key ps feLog1 (t + latency p + 5 * Second)
          = watch_loop cfg ctx key ps feLog1 (t + latency p + 5 * Second)"
        by (rule Cons.IH)
      with False same r Some show ?thesis by (simp add: Let_def)
    qed
  qed
qed

lemma watch_loop_cancelled_done:
  "status (watch_loop cfg ctx key ps feLog t) = Cancelled
     \<Longrightarrow> Done ctx (clock (watch_loop cfg ctx key ps feLog t))"
proof (induction ps arbitrary: feLog t)
  case Nil
  then show ?case by simp
next
  case (Cons p ps)
  obtain results e feLog1 effs where r:
    "retrieveConnstring feLog p key (jsonkeys_connstring cfg) = ((results, e), feLog1, effs)"
    by (metis prod.exhaust)
  show ?case
    using r Cons.prems Cons.IH [of feLog1 "t + latency p + 5 * Second"]
    by (cases "Done ctx t"; cases e) (auto simp: Let_def)
qed



subsection \<open>Facts about the goroutine and GetAssignment\<close>

lemma watcher_go_chan:
  "filter is_chan (trace (watcher_go cfg ctx recv key ps feLog t))
     = (case status (watcher_go cfg ctx recv key ps feLog t) of
          Delivered v \<Rightarrow> [Send v, CloseChan]
        | Cancelled \<Rightarrow> [CloseChan]
        | _ \<Rightarrow> [])
   \<and> (\<forall>v. status (watcher_go cfg ctx recv key ps feLog t) \<noteq> AtSend v)"
  using watch_loop_chan [of cfg ctx key ps feLog t] watch_loop_status [of cfg ctx key ps feLog t]
  by (auto simp: watcher_go_def Let_def split: status.splits)

lemma watcher_go_last:
  "returned (status (watcher_go cfg ctx recv key ps feLog t))
     \<Longrightarrow> last (trace (watcher_go cfg ctx recv key ps feLog t)) = CloseChan"
proof -
  let ?w = "watch_loop cfg ctx key ps feLog t"
  assume r: "returned (status (watcher_go cfg ctx recv key ps feLog t))"
  from watch_loop_status [of cfg ctx key ps feLog t]
  consider "status ?w = Polling" | v where "status ?w = AtSend v" | "status ?w = Cancelled"
    by blast
  then show ?thesis
  proof cases
    case 1
    with r show ?thesis by (simp add: watcher_go_def returned_def)
  next
    case 2
    with r show ?thesis
      by (cases "recv (clock ?w)") (simp_all add: watcher_go_def returned_def Let_def)
  next
    case 3
    with watch_loop_cancelled [of cfg ctx key ps feLog t]
    obtain pre where "trace ?w = pre @ [CtxDone, CloseChan]" by blast
    with 3 show ?thesis by (simp add: watcher_go_def)
  qed
qed

lemma watcher_trace:
  "trace (watcher cfg ctx recv key ps feLog t)
     = Log DebugLevel (WithFields feLog [(''key'', key)]) ''Watching key in statestorage for changes''
       # trace (watcher_go cfg ctx recv key ps (WithFields feLog [(''key'', key)]) t)"
  by (simp add: watcher_def Let_def)

lemma watcher_status:
  "status (watcher cfg ctx recv key ps feLog t)
     = status (watcher_go cfg ctx recv key ps (WithFields feLog [(''key'', key)]) t)"
  by (simp add: watcher_def Let_def)

lemma watcher_clock:
  "clock (watcher cfg ctx recv key ps feLog t)
     = clock (watch_loop cfg ctx key ps (WithFields feLog [(''key'', key)]) t)"
  by (simp add: watcher_def watcher_go_def Let_def split: status.splits)

lemma watcher_status_loop:
  "status (watch_loop cfg ctx key ps (WithFields feLog [(''key'', key)]) t) = Polling
     \<or> status (watch_loop cfg ctx key ps (WithFields feLog [(''key'', key)]) t) = Cancelled
   \<Longrightarrow> status (watcher cfg ctx recv key ps feLog t)
     = status (watch_loop cfg ctx key ps (WithFields feLog [(''key'', key)]) t)"
  by (auto simp: watcher_def watcher_go_def Let_def)

lemma GetAssignment_config:
  "jsonkeys_connstring cfg' = jsonkeys_connstring cfg
     \<Longrightarrow> GetAssignment cfg' c tie p_Id script feLog = GetAssignment cfg c tie p_Id script feLog"
  by (simp add: GetAssignment_def watcher_def watcher_go_def watch_loop_config [of cfg' cfg])

lemma GetAssignment_error:
  "GetAssignment cfg c tie p_Id script feLog = Some a \<Longrightarrow> err a \<noteq> None
     \<Longrightarrow> err a = Some watch_timeout \<and> returned_at a = 30 * Second \<and> ConnectionString a = ''''"
  by (auto simp: GetAssignment_def Let_def split: status.splits if_splits)

lemma GetAssignment_no_record:
  assumes none: "\<forall>p\<in>set script. snapshot p (p_Id, jsonkeys_connstring cfg) = None"
      and live: "\<not> Done c (30 * Second)"
      and fuel: "7 \<le> length script"
  shows "\<exists>a. GetAssignment cfg c tie p_Id script feLog = Some a
           \<and> err a = Some watch_timeout \<and> returned_at a = 30 * Second"
proof -
  let ?lg = "WithFields feLog [(''key'', p_Id)]"
  let ?l = "watch_loop cfg c p_Id script ?lg 0"
  let ?w = "watcher cfg c (\<lambda>t. True) p_Id script feLog 0"
  from watch_loop_no_record [OF none, of c ?lg 0]
  consider (polling) "status ?l = Polling" "0 + length script * (5 * Second) \<le> clock ?l"
    | (cancelled) "status ?l = Cancelled" "Done c (clock ?l)"
    by blast
  then have late: "(status ?w = Polling \<or> status ?w = Cancelled) \<and> 30 * Second < clock ?w"
  proof cases
    case polling
    have "7 * (5 * Second) \<le> length script * (5 * Second)"
      using fuel by (rule mult_le_mono1)
    then have "30 * Second < clock ?l" using polling(2) by (simp add: Second_def)
    with polling(1) show ?thesis
      by (simp add: watcher_clock watcher_status_loop)
  next
    case cancelled
    have "30 * Second < clock ?l"
    proof (rule ccontr)
      assume "\<not> 30 * Second < clock ?l"
      then have "clock ?l \<le> 30 * Second" by simp
      with cancelled(2) have "Done c (30 * Second)" by (rule Done_mono)
      with live show False by simp
    qed
    with cancelled(1) show ?thesis
      by (simp add: watcher_clock watcher_status_loop)
  qed
  then show ?thesis
    by (auto simp: GetAssignment_def Let_def)
qed

lemma GetAssignment_first_read:
  assumes "\<not> Done c 0"
      and "acquire p = None" and "transport p = None"
      and "snapshot p (p_Id, jsonkeys_connstring cfg) = Some v"
      and "latency p < 30 * Second"
  shows "\<exists>e. GetAssignment cfg c tie p_Id (p # ps) feLog
     = Some \<lparr>ConnectionString = v, err = None, returned_at = latency p, effects = e\<rparr>"
  using assms
  by (simp add: GetAssignment_def watcher_def watcher_go_def Let_def retrieveConnstring_live
      HGET_def)

text \<open>
  A receive from the channel closed on cancellation makes GetAssignment return the empty
  connection string with a nil error.
\<close>

lemma GetAssignment_cancelled:
  "Done c 0 \<Longrightarrow> script \<noteq> [] \<Longrightarrow>
   \<exists>e. GetAssignment cfg c tie p_Id script feLog
     = Some \<lparr>ConnectionString = '''', err = None, returned_at = 0, effects = e\<rparr>"
  by (cases script) (simp_all add: GetAssignment_def watcher_def watcher_go_def Let_def Second_def)

text \<open>
  The two runs of the goroutine that the model of GetAssignment looks at agree: when
  GetAssignment returns without error the goroutine it leaves behind has returned at
  that instant, having delivered the value returned or closed the channel on
  cancellation; when it returns the timeout error under a caller's context that is not
  done, the goroutine has not returned by then.
\<close>

lemma received_goroutine_returned:
  assumes a: "GetAssignment cfg c tie p_Id script feLog = Some a"
      and e: "err a = None"
      and g: "GetAssignment_goroutine cfg c tie p_Id script feLog = Some g"
  shows "returned (status g) \<and> clock g = returned_at a
    \<and> (status g = Delivered (ConnectionString a)
        \<or> (status g = Cancelled \<and> ConnectionString a = ''''))"
proof -
  let ?T = "30 * Second"
  let ?lg = "WithFields feLog [(''key'', p_Id)]"
  let ?ctx = "WithCancel c (Some (Suc (returned_at a)))"
  let ?recv = "\<lambda>t. t < ?T \<or> (t = ?T \<and> tie)"
  let ?l = "watch_loop cfg c p_Id script ?lg 0"
  have g_def: "g = watcher cfg ?ctx ?recv p_Id script feLog 0"
    using g a by (simp add: GetAssignment_goroutine_def)
  from watch_loop_status [of cfg c p_Id script ?lg 0]
  consider "status ?l = Polling" | v where "status ?l = AtSend v" | "status ?l = Cancelled"
    by blast
  then have first: "?recv (clock ?l) \<and> returned_at a = clock ?l
      \<and> ((\<exists>v. status ?l = AtSend v \<and> ConnectionString a = v)
          \<or> (status ?l = Cancelled \<and> ConnectionString a = ''''))"
  proof cases
    case 1
    with a e show ?thesis
      by (auto simp: GetAssignment_def watcher_def watcher_go_def Let_def split: if_splits)
  next
    case 2
    with a e show ?thesis
      by (auto simp: GetAssignment_def watcher_def watcher_go_def Let_def split: if_splits)
  next
    case 3
    with a e show ?thesis
      by (auto simp: GetAssignment_def watcher_def watcher_go_def Let_def split: if_splits)
  qed
  then have "clock ?l \<le> returned_at a" by simp
  then have same: "watch_loop cfg ?ctx p_Id script ?lg 0 = ?l"
    using watch_loop_agree [of "returned_at a" ?ctx c cfg p_Id script ?lg 0]
      WithCancel_before [of _ "returned_at a" c]
    by simp
  have "watcher cfg ?ctx ?recv p_Id script feLog 0 = watcher cfg c ?recv p_Id script feLog 0"
    by (simp add: watcher_def watcher_go_def same)
  then have g_eq: "g = watcher cfg c ?recv p_Id script feLog 0"
    by (simp add: g_def)
  from first show ?thesis
    unfolding g_eq by (auto simp: watcher_def watcher_go_def Let_def returned_def)
qed

lemma timeout_goroutine_alive:
  assumes a: "GetAssignment cfg c tie p_Id script feLog = Some a"
      and e: "err a \<noteq> None"
      and live: "\<not> Done c (30 * Second)"
      and g: "GetAssignment_goroutine cfg c tie p_Id script feLog = Some g"
  shows "\<not> (returned (status g) \<and> clock g \<le> 30 * Second)"
proof
  assume gone: "returned (status g) \<and> clock g \<le> 30 * Second"
  let ?T = "30 * Second"
  let ?lg = "WithFields feLog [(''key'', p_Id)]"
  let ?ctx = "WithCancel c (Some (Suc ?T))"
  let ?recv = "\<lambda>t. t < ?T \<or> (t = ?T \<and> tie)"
  let ?l' = "watch_loop cfg ?ctx p_Id script ?lg 0"
  let ?l = "watch_loop cfg c p_Id script ?lg 0"
  have ret: "returned_at a = ?T"
    using GetAssignment_error [OF a e] by simp
  have g_def: "g = watcher cfg ?ctx ?recv p_Id script feLog 0"
    using g a ret by (simp add: GetAssignment_goroutine_def)
  have clock': "clock ?l' \<le> ?T"
    using gone by (simp add: g_def watcher_clock)
  have agree: "?l = ?l'"
    using watch_loop_agree [of ?T c ?ctx cfg p_Id script ?lg 0] clock' WithCancel_before [of _ ?T c]
    by simp
  from watch_loop_status [of cfg ?ctx p_Id script ?lg 0]
  consider "status ?l' = Polling" | v where "status ?l' = AtSend v" | "status ?l' = Cancelled"
    by blast
  then show False
  proof cases
    case 1
    with gone show False
      by (simp add: g_def watcher_def watcher_go_def returned_def Let_def)
  next
    case 2
    with gone have r: "?recv (clock ?l')"
      by (cases "?recv (clock ?l')")
         (simp_all add: g_def watcher_def watcher_go_def returned_def Let_def)
    with 2 agree a e show False
      by (auto simp: GetAssignment_def watcher_def watcher_go_def Let_def split: if_splits)
  next
    case 3
    then have "Done ?ctx (clock ?l')" by (rule watch_loop_cancelled_done)
    then have "Done c (clock ?l')" using clock' WithCancel_before [of "clock ?l'" ?T c] by simp
    then have "Done c ?T" using clock' by (rule Done_mono)
    with live show False by simp
  qed
qed


lemma assigned_late_loop:
  assumes "\<not> Done ctx (25 * Second)"
  shows "status (watch_loop matchmaker_config ctx ''p1'' assigned_late feLog 0)
           = AtSend ''10.0.0.5:7777''
    \<and> clock (watch_loop matchmaker_config ctx ''p1'' assigned_late feLog 0) = 31 * Second
    \<and> filter is_chan (trace (watch_loop matchmaker_config ctx ''p1'' assigned_late feLog 0)) = []"
proof -
  have live: "\<not> Done ctx t" if "t \<le> 25 * Second" for t
    using Done_mono [of ctx t "25 * Second"] that assms by blast
  have t: "\<not> Done ctx 0" "\<not> Done ctx (5 * Second)" "\<not> Done ctx (10 * Second)"
    "\<not> Done ctx (15 * Second)" "\<not> Done ctx (20 * Second)" "\<not> Done ctx (25 * Second)"
    by (rule live, simp add: Second_def)+
  show ?thesis
    using t
    by (simp add: assigned_late_def retrieveConnstring_live HGET_def
        record_absent_def record_present_def ErrNil_def Let_def matchmaker_config_def
        Second_def)
qed

text \<open>The equations that evaluate a run on a concrete environment.\<close>

lemmas run_simps =
  watcher_def watcher_go_def retrieveConnstring_def GetContext_def HGET_def Done_def Let_def
  WithFields_def matchmaker_config_def feLog_init_def feLogFields_def
  record_absent_def record_present_def listening_def pool_exhausted_def Second_def

subsection \<open>A record written before the watch is found by the first read\<close>

text \<open>
  Claim C1. For every player id (the key watched): if the connection-string field of the
  record is present in the store when the watcher starts polling, that is, the first
  select finds the context not done, the pool hands out a connection and the command is
  executed on a store that holds the field, then the very first read succeeds. The
  goroutine issues exactly one \<open>HGET\<close>, never sleeps, and hands over that value (the
  channel carries the value, then the close) as soon as the read returns, provided the
  receiver is waiting then: there is no window in which the record is missed. GetAssignment,
  called under a context that is not done, returns that value with a nil error at the
  instant the read returns, when the read takes less than the 30 seconds of its timer.
\<close>

theorem watcher_first_read:
  assumes "acquire p = None" and "transport p = None"
      and "snapshot p (key, jsonkeys_connstring cfg) = Some v"
  shows "(\<not> Done ctx t \<and> recv (t + latency p) \<longrightarrow>
        status (watcher cfg ctx recv key (p # ps) feLog t) = Delivered v
      \<and> filter is_chan (trace (watcher cfg ctx recv key (p # ps) feLog t)) = [Send v, CloseChan]
      \<and> filter is_Do (trace (watcher cfg ctx recv key (p # ps) feLog t))
          = [Do ''HGET'' [key, jsonkeys_connstring cfg]]
      \<and> delays (trace (watcher cfg ctx recv key (p # ps) feLog t)) = []
      \<and> clock (watcher cfg ctx recv key (p # ps) feLog t) = t + latency p)
    \<and> (\<not> Done c 0 \<and> latency p < 30 * Second \<longrightarrow>
        (\<exists>e. GetAssignment cfg c tie key (p # ps) feLog
           = Some \<lparr>ConnectionString = v, err = None, returned_at = latency p, effects = e\<rparr>))"
proof -
  have run: "status (watcher cfg ctx recv key (p # ps) feLog t) = Delivered v
      \<and> filter is_chan (trace (watcher cfg ctx recv key (p # ps) feLog t)) = [Send v, CloseChan]
      \<and> filter is_Do (trace (watcher cfg ctx recv key (p # ps) feLog t))
          = [Do ''HGET'' [key, jsonkeys_connstring cfg]]
      \<and> delays (trace (watcher cfg ctx recv key (p # ps) feLog t)) = []
      \<and> clock (watcher cfg ctx recv key (p # ps) feLog t) = t + latency p"
    if "\<not> Done ctx t" "recv (t + latency p)"
    using assms that
    by (simp add: watcher_def watcher_go_def Let_def retrieveConnstring_live HGET_def)
  have answer: "\<exists>e. GetAssignment cfg c tie key (p # ps) feLog
           = Some \<lparr>ConnectionString = v, err = None, returned_at = latency p, effects = e\<rparr>"
    if "\<not> Done c 0" "latency p < 30 * Second"
    using that assms by (intro GetAssignment_first_read)
  from run answer show ?thesis by blast
qed

text \<open>
  The theorem at the scenario of the specification: the connection string
  \<open>10.0.0.5:7777\<close> is published for \<open>p1\<close> before the watch starts, and the read
  takes 5 nanoseconds.
\<close>

theorem watcher_first_read_witness:
  "status (watcher matchmaker_config None listening ''p1''
             [record_present ''p1'' ''10.0.0.5:7777'' 5] feLog_init 0)
     = Delivered ''10.0.0.5:7777''
   \<and> delays (trace (watcher matchmaker_config None listening ''p1''
             [record_present ''p1'' ''10.0.0.5:7777'' 5] feLog_init 0)) = []
   \<and> clock (watcher matchmaker_config None listening ''p1''
             [record_present ''p1'' ''10.0.0.5:7777'' 5] feLog_init 0) = 5
   \<and> map_option ConnectionString
        (GetAssignment matchmaker_config None True ''p1''
           [record_present ''p1'' ''10.0.0.5:7777'' 5] feLog_init) = Some ''10.0.0.5:7777''
   \<and> map_option returned_at
        (GetAssignment matchmaker_config None True ''p1''
           [record_present ''p1'' ''10.0.0.5:7777'' 5] feLog_init) = Some 5"
proof -
  have p: "acquire (record_present ''p1'' ''10.0.0.5:7777'' 5) = None"
    "transport (record_present ''p1'' ''10.0.0.5:7777'' 5) = None"
    "snapshot (record_present ''p1'' ''10.0.0.5:7777'' 5)
       (''p1'', jsonkeys_connstring matchmaker_config) = Some ''10.0.0.5:7777''"
    by (simp_all add: record_present_def matchmaker_config_def)
  have env: "\<not> Done None 0" "listening (0 + latency (record_present ''p1'' ''10.0.0.5:7777'' 5))"
    "latency (record_present ''p1'' ''10.0.0.5:7777'' 5) < 30 * Second"
    "latency (record_present ''p1'' ''10.0.0.5:7777'' 5) = 5"
    by (simp_all add: Done_def listening_def record_present_def Second_def)
  from env watcher_first_read [OF p, where ctx = None and t = 0 and recv = listening
      and ps = "[]" and feLog = feLog_init and c = None and tie = True]
  show ?thesis by auto
qed

subsection \<open>The visibility law of the ignore lists\<close>

text \<open>
  Claim C2. For every ignore list \<open>L\<close> configured with an offset and a duration and
  every id marked excluded at time \<open>t0\<close> (the id was not on the list before): when the
  duration is positive, \<open>IsVisible\<close> is false exactly for \<open>now\<close> in the interval from
  \<open>t0 + offset\<close> (included) to \<open>t0 + offset + duration\<close> (excluded); when the duration
  is zero it is false exactly for every \<open>now \<ge> t0 + offset\<close>; it is true otherwise.
\<close>

theorem visibility_law:
  assumes "st (name L) pid = None"
  shows "(0 < duration L \<longrightarrow>
           IsVisible L (MarkExcluded st (name L) pid t0) pid now
             = (\<not> (t0 + offset L \<le> now \<and> now < t0 + offset L + duration L)))
       \<and> (duration L = 0 \<longrightarrow>
           IsVisible L (MarkExcluded st (name L) pid t0) pid now = (now < t0 + offset L))"
  using assms by (auto simp: IsVisible_def MarkExcluded_def)

text \<open>
  The law at the lists the repository configures: \<open>proposed\<close> (offset 0, duration 800)
  hides a player marked at second 1000 from second 1000 to second 1799, and \<open>expired\<close>
  (offset 800, duration 0) hides it from second 1800 on.
\<close>

theorem visibility_law_witness:
  "no_entries (name proposed) ''p1'' = None
   \<and> map_of (ignoreLists matchmaker_config) ''proposed'' = Some proposed
   \<and> map_of (ignoreLists matchmaker_config) ''expired'' = Some expired
   \<and> \<not> IsVisible proposed (MarkExcluded no_entries (name proposed) ''p1'' 1000) ''p1'' 1000
   \<and> \<not> IsVisible proposed (MarkExcluded no_entries (name proposed) ''p1'' 1000) ''p1'' 1799
   \<and> IsVisible proposed (MarkExcluded no_entries (name proposed) ''p1'' 1000) ''p1'' 1800
   \<and> IsVisible expired (MarkExcluded no_entries (name expired) ''p1'' 1000) ''p1'' 1799
   \<and> \<not> IsVisible expired (MarkExcluded no_entries (name expired) ''p1'' 1000) ''p1'' 1800"
  using visibility_law [where st = no_entries and L = proposed and pid = "''p1''" and ?t0.0 = 1000
      and now = 1000]
    visibility_law [where st = no_entries and L = proposed and pid = "''p1''" and ?t0.0 = 1000
      and now = 1799]
    visibility_law [where st = no_entries and L = proposed and pid = "''p1''" and ?t0.0 = 1000
      and now = 1800]
    visibility_law [where st = no_entries and L = expired and pid = "''p1''" and ?t0.0 = 1000
      and now = 1799]
    visibility_law [where st = no_entries and L = expired and pid = "''p1''" and ?t0.0 = 1000
      and now = 1800]
  by (simp add: no_entries_def proposed_def expired_def matchmaker_config_def)

subsection \<open>The operations on the channel\<close>

text \<open>
  What every run of the watcher does on its channel, whatever the store, the context and
  the receiver do: at most one value is sent and the channel is never closed twice. The
  operations are the send of the value followed by the close when the value was
  delivered, and the close alone when the cancellation was observed; a goroutine that has
  returned closed the channel exactly once, as its last effect; a goroutine that has not
  returned did nothing on the channel. No send occurs after the close.
\<close>

theorem watcher_channel_protocol:
  fixes cfg ctx recv key script feLog t
  defines "tr \<equiv> trace (watcher cfg ctx recv key script feLog t)"
      and "st \<equiv> status (watcher cfg ctx recv key script feLog t)"
  shows "length (filter is_Send tr) \<le> 1
    \<and> length (filter (\<lambda>e. e = CloseChan) tr) \<le> 1
    \<and> (\<forall>v. st = Delivered v \<longrightarrow> filter is_chan tr = [Send v, CloseChan])
    \<and> (st = Cancelled \<longrightarrow> filter is_chan tr = [CloseChan])
    \<and> (returned st \<longrightarrow> last tr = CloseChan)
    \<and> (\<not> returned st \<longrightarrow> filter is_chan tr = [])
    \<and> (\<forall>pre post v. tr = pre @ CloseChan # post \<longrightarrow> Send v \<notin> set post)"
proof -
  let ?g = "watcher_go cfg ctx recv key script (WithFields feLog [(''key'', key)]) t"
  have tr: "tr = Log DebugLevel (WithFields feLog [(''key'', key)])
                   ''Watching key in statestorage for changes'' # trace ?g"
    and st: "st = status ?g"
    by (simp_all add: tr_def st_def watcher_trace watcher_status)
  have chan: "filter is_chan tr
     = (case st of Delivered v \<Rightarrow> [Send v, CloseChan] | Cancelled \<Rightarrow> [CloseChan] | _ \<Rightarrow> [])"
    and noAt: "\<forall>v. st \<noteq> AtSend v"
    using watcher_go_chan [of cfg ctx recv key script "WithFields feLog [(''key'', key)]" t]
    by (simp_all add: tr st)
  have sends: "filter is_Send tr = filter is_Send (filter is_chan tr)"
    by (simp add: filter_filter) (metis (mono_tags, lifting) filter_cong is_Send.elims(2) is_chan.simps(1))
  have closes: "filter (\<lambda>e. e = CloseChan) tr = filter (\<lambda>e. e = CloseChan) (filter is_chan tr)"
    by (simp add: filter_filter) (metis (mono_tags, lifting) filter_cong is_chan.simps(2))
  have 1: "length (filter is_Send tr) \<le> 1"
    unfolding sends chan by (cases st) simp_all
  have 2: "length (filter (\<lambda>e. e = CloseChan) tr) \<le> 1"
    unfolding closes chan by (cases st) simp_all
  have 3: "\<forall>v. st = Delivered v \<longrightarrow> filter is_chan tr = [Send v, CloseChan]"
    by (simp add: chan)
  have 4: "st = Cancelled \<longrightarrow> filter is_chan tr = [CloseChan]"
    by (simp add: chan)
  have 5: "returned st \<longrightarrow> last tr = CloseChan"
  proof
    assume r: "returned st"
    then have "last (trace ?g) = CloseChan" unfolding st by (rule watcher_go_last)
    moreover have "trace ?g \<noteq> []"
      using chan r by (auto simp: tr returned_def split: status.splits)
    ultimately show "last tr = CloseChan" by (simp add: tr)
  qed
  have 6: "\<not> returned st \<longrightarrow> filter is_chan tr = []"
    using noAt by (cases st) (simp_all add: chan returned_def)
  have 7: "\<forall>pre post v. tr = pre @ CloseChan # post \<longrightarrow> Send v \<notin> set post"
  proof (intro allI impI)
    fix pre post v
    assume split: "tr = pre @ CloseChan # post"
    have "filter is_chan tr = filter is_chan pre @ CloseChan # filter is_chan post"
      by (simp add: split)
    then have "filter is_chan post = []"
      unfolding chan by (cases st) (auto simp: append_eq_Cons_conv Cons_eq_append_conv)
    then show "Send v \<notin> set post"
      by (metis filter_empty_conv is_chan.simps(1))
  qed
  from 1 2 3 4 5 6 7 show ?thesis by blast
qed

text \<open>
  Three runs: one that delivers (the first read fails, the second succeeds), one that is
  cancelled after 3 nanoseconds, and one still polling when its single poll is used up.
\<close>

theorem watcher_channel_protocol_witness:
  "status (watcher matchmaker_config None listening ''p1''
             [record_absent, record_present ''p1'' ''10.0.0.5:7777'' 5] feLog_init 0)
     = Delivered ''10.0.0.5:7777''
   \<and> filter is_chan (trace (watcher matchmaker_config None listening ''p1''
             [record_absent, record_present ''p1'' ''10.0.0.5:7777'' 5] feLog_init 0))
     = [Send ''10.0.0.5:7777'', CloseChan]
   \<and> last (trace (watcher matchmaker_config None listening ''p1''
             [record_absent, record_present ''p1'' ''10.0.0.5:7777'' 5] feLog_init 0))
     = CloseChan
   \<and> status (watcher matchmaker_config (Some 3) listening ''p1''
             [record_absent, record_present ''p1'' ''10.0.0.5:7777'' 5] feLog_init 0)
     = Cancelled
   \<and> filter is_chan (trace (watcher matchmaker_config (Some 3) listening ''p1''
             [record_absent, record_present ''p1'' ''10.0.0.5:7777'' 5] feLog_init 0))
     = [CloseChan]
   \<and> status (watcher matchmaker_config None listening ''p1'' [record_absent] feLog_init 0)
     = Polling
   \<and> filter is_chan (trace (watcher matchmaker_config None listening ''p1''
             [record_absent] feLog_init 0))
     = []"
proof -
  let ?delivered = "watcher matchmaker_config None listening ''p1''
              [record_absent, record_present ''p1'' ''10.0.0.5:7777'' 5] feLog_init 0"
  let ?cancelled = "watcher matchmaker_config (Some 3) listening ''p1''
              [record_absent, record_present ''p1'' ''10.0.0.5:7777'' 5] feLog_init 0"
  let ?polling = "watcher matchmaker_config None listening ''p1'' [record_absent] feLog_init 0"
  have st: "status ?delivered = Delivered ''10.0.0.5:7777''" "status ?cancelled = Cancelled"
    "status ?polling = Polling"
    by (simp_all add: run_simps)
  then have r: "returned (status ?delivered)" "\<not> returned (status ?polling)"
    by (simp_all add: returned_def)
  from st r
    watcher_channel_protocol [of matchmaker_config None listening "''p1''"
      "[record_absent, record_present ''p1'' ''10.0.0.5:7777'' 5]" feLog_init 0]
    watcher_channel_protocol [of matchmaker_config "Some 3" listening "''p1''"
      "[record_absent, record_present ''p1'' ''10.0.0.5:7777'' 5]" feLog_init 0]
    watcher_channel_protocol [of matchmaker_config None listening "''p1''"
      "[record_absent]" feLog_init 0]
  show ?thesis by simp
qed

subsection \<open>A value read after the timeout is never handed over\<close>

text \<open>
  Claim C3 says that in every execution of the watcher the channel is closed exactly
  once. The code has an execution in which it is never closed: the polls at 0, 5, 10, 15
  and 20 seconds find no connection string and the poll started at 25 seconds takes 6
  seconds and finds it. GetAssignment has left its select at 30 seconds, so the goroutine,
  out of the loop with the value at 31 seconds, waits in the unbuffered send for ever:
  no value is sent and the channel is closed zero times.
\<close>

theorem blocked_send_never_closes:
  "map_option status
     (GetAssignment_goroutine matchmaker_config None False ''p1'' assigned_late feLog_init)
     = Some (Blocked ''10.0.0.5:7777'')
   \<and> map_option closes
       (GetAssignment_goroutine matchmaker_config None False ''p1'' assigned_late feLog_init)
     = Some 0
   \<and> map_option sends
       (GetAssignment_goroutine matchmaker_config None False ''p1'' assigned_late feLog_init)
     = Some 0"
proof -
  let ?lg = "WithFields feLog_init [(''key'', ''p1'')]"
  let ?ctx = "WithCancel None (Some (Suc (30 * Second)))"
  let ?l = "watch_loop matchmaker_config ?ctx ''p1'' assigned_late ?lg 0"
  have "\<exists>e. GetAssignment matchmaker_config None False ''p1'' assigned_late feLog_init
      = Some \<lparr>ConnectionString = '''', err = Some watch_timeout, returned_at = 30 * Second,
          effects = e\<rparr>"
    using assigned_late_loop [of None ?lg]
    by (simp add: GetAssignment_def watcher_def watcher_go_def Let_def Done_def Second_def)
  then obtain e where a: "GetAssignment matchmaker_config None False ''p1'' assigned_late feLog_init
      = Some \<lparr>ConnectionString = '''', err = Some watch_timeout, returned_at = 30 * Second,
          effects = e\<rparr>"
    by blast
  have "\<not> Done ?ctx (25 * Second)"
    by (simp add: WithCancel_def Done_def Second_def)
  from assigned_late_loop [OF this, of ?lg]
  have l: "status ?l = AtSend ''10.0.0.5:7777''" "clock ?l = 31 * Second"
    "filter is_chan (trace ?l) = []"
    by simp_all
  from l(3) have none: "\<forall>x\<in>set (trace ?l). \<not> is_chan x"
    by (simp add: filter_empty_conv)
  have c: "filter (\<lambda>e. e = CloseChan) (trace ?l) = []"
    unfolding filter_empty_conv using none by auto
  have s: "filter is_Send (trace ?l) = []"
    unfolding filter_empty_conv using none by (metis is_Send.elims(2) is_chan.simps(1))
  from a l c s show ?thesis
    by (simp add: GetAssignment_goroutine_def watcher_def watcher_go_def Let_def closes_def
        sends_def Second_def)
qed

subsection \<open>Cancellation stops the loop\<close>

text \<open>
  Claim C4. For every watch: a context that is done when the loop starts an iteration is
  observed there, and once the cancellation of the context is observed by the loop (the
  select takes the \<open>ctx.Done()\<close> case) the goroutine only closes the result channel and
  returns. No store read is issued after that point, every connection taken from the pool
  before it has been closed, and no value has been or is sent on the channel: nothing is
  handed over as if a read had succeeded.
\<close>

theorem watcher_cancellation:
  fixes cfg ctx recv key script feLog t
  defines "tr \<equiv> trace (watcher cfg ctx recv key script feLog t)"
      and "st \<equiv> status (watcher cfg ctx recv key script feLog t)"
  shows "(Done ctx t \<and> script \<noteq> [] \<longrightarrow> CtxDone \<in> set tr)
    \<and> (CtxDone \<in> set tr \<longrightarrow>
         st = Cancelled
         \<and> filter is_Send tr = []
         \<and> (\<exists>pre. tr = pre @ [CtxDone, CloseChan]
                \<and> CtxDone \<notin> set pre \<and> closed pre = acquired pre))"
proof -
  let ?lg = "WithFields feLog [(''key'', key)]"
  let ?w = "watch_loop cfg ctx key script ?lg t"
  let ?watching = "Log DebugLevel ?lg ''Watching key in statestorage for changes''"
  have first: "Done ctx t \<and> script \<noteq> [] \<longrightarrow> CtxDone \<in> set tr"
    by (cases script) (simp_all add: tr_def watcher_trace watcher_go_def)
  have seen: "CtxDone \<in> set tr \<longrightarrow> st = Cancelled \<and> filter is_Send tr = []
      \<and> (\<exists>pre. tr = pre @ [CtxDone, CloseChan] \<and> CtxDone \<notin> set pre \<and> closed pre = acquired pre)"
  proof
    assume seen: "CtxDone \<in> set tr"
    have "CtxDone \<in> set (trace ?w)"
      using seen watch_loop_status [of cfg ctx key script ?lg t]
      by (auto simp: tr_def watcher_trace watcher_go_def Let_def split: status.splits if_splits)
    then have c: "status ?w = Cancelled"
      using watch_loop_cancelled [of cfg ctx key script ?lg t] by blast
    then obtain pre where pre: "trace ?w = pre @ [CtxDone, CloseChan]"
      "CtxDone \<notin> set pre" "closed pre = acquired pre"
      using watch_loop_cancelled [of cfg ctx key script ?lg t] by blast
    have tr: "tr = (?watching # pre) @ [CtxDone, CloseChan]"
      using c pre by (simp add: tr_def watcher_trace watcher_go_def)
    have st: "st = Cancelled"
      using c by (simp add: st_def watcher_status watcher_go_def)
    have "filter is_chan (trace ?w) = [CloseChan]"
      using watch_loop_chan [of cfg ctx key script ?lg t] c by simp
    then have "filter is_chan pre = []" by (simp add: pre)
    then have "filter is_Send pre = []"
      by (metis (mono_tags, lifting) filter_empty_conv is_Send.elims(2) is_chan.simps(1))
    then have sends: "filter is_Send tr = []" by (simp add: tr)
    have "CtxDone \<notin> set (?watching # pre) \<and> closed (?watching # pre) = acquired (?watching # pre)"
      using pre by simp
    with tr st sends show "st = Cancelled \<and> filter is_Send tr = []
      \<and> (\<exists>pre. tr = pre @ [CtxDone, CloseChan] \<and> CtxDone \<notin> set pre \<and> closed pre = acquired pre)"
      by blast
  qed
  from first seen show ?thesis by blast
qed

text \<open>
  The theorem at a context cancelled after 3 nanoseconds: a loop that starts at
  nanosecond 5 observes the cancellation at once; in a loop that starts at 0 the first
  read fails, and the select after the sleep observes the cancellation, the one
  connection taken having been closed.
\<close>

theorem watcher_cancellation_witness:
  "Done (Some 3) 5 \<and> [record_present ''p1'' ''10.0.0.5:7777'' 5] \<noteq> []
   \<and> CtxDone \<in> set (trace (watcher matchmaker_config (Some 3) listening ''p1''
             [record_present ''p1'' ''10.0.0.5:7777'' 5] feLog_init 5))
   \<and> CtxDone \<in> set (trace (watcher matchmaker_config (Some 3) listening ''p1''
             [record_absent, record_present ''p1'' ''10.0.0.5:7777'' 5] feLog_init 0))
   \<and> status (watcher matchmaker_config (Some 3) listening ''p1''
             [record_absent, record_present ''p1'' ''10.0.0.5:7777'' 5] feLog_init 0)
     = Cancelled
   \<and> filter is_Send (trace (watcher matchmaker_config (Some 3) listening ''p1''
             [record_absent, record_present ''p1'' ''10.0.0.5:7777'' 5] feLog_init 0)) = []
   \<and> acquired (trace (watcher matchmaker_config (Some 3) listening ''p1''
             [record_absent, record_present ''p1'' ''10.0.0.5:7777'' 5] feLog_init 0))
     = [LiveConn]
   \<and> closed (trace (watcher matchmaker_config (Some 3) listening ''p1''
             [record_absent, record_present ''p1'' ''10.0.0.5:7777'' 5] feLog_init 0))
     = [LiveConn]"
proof -
  let ?w = "watcher matchmaker_config (Some 3) listening ''p1''
              [record_absent, record_present ''p1'' ''10.0.0.5:7777'' 5] feLog_init 0"
  have d: "Done (Some 3) 5" "[record_present ''p1'' ''10.0.0.5:7777'' 5] \<noteq> []"
    by (simp_all add: Done_def)
  with watcher_cancellation [where ctx = "Some 3" and t = 5
      and script = "[record_present ''p1'' ''10.0.0.5:7777'' 5]"
      and cfg = matchmaker_config and recv = listening and key = "''p1''" and feLog = feLog_init]
  have first: "CtxDone \<in> set (trace (watcher matchmaker_config (Some 3) listening ''p1''
             [record_present ''p1'' ''10.0.0.5:7777'' 5] feLog_init 5))"
    by blast
  have seen: "CtxDone \<in> set (trace ?w)"
    and conns: "acquired (trace ?w) = [LiveConn]" "closed (trace ?w) = [LiveConn]"
    by (simp_all add: run_simps)
  with watcher_cancellation [where ctx = "Some 3" and t = 0
      and script = "[record_absent, record_present ''p1'' ''10.0.0.5:7777'' 5]"
      and cfg = matchmaker_config and recv = listening and key = "''p1''" and feLog = feLog_init]
  have "status ?w = Cancelled \<and> filter is_Send (trace ?w) = []" by blast
  with d first seen conns show ?thesis by blast
qed

subsection \<open>The timeout of GetAssignment\<close>

text \<open>
  Claim C5, as amended. GetAssignment waits a fixed 30 seconds: the bound does not
  depend on the key \<open>interval.resultsTimeout\<close> of the configuration. Whenever it
  returns an error, the error is the timeout error, the instant is exactly the deadline
  of 30 seconds and the connection string is empty. When no connection string appears on
  the record, the caller's context is not done at the deadline and the polls listed cover
  the 30 seconds (seven do), GetAssignment does return: the timeout error, at the
  deadline.
\<close>

theorem GetAssignment_fixed_timeout:
  "GetAssignment (cfg\<lparr>interval_resultsTimeout := n\<rparr>) c tie p_Id script feLog
     = GetAssignment cfg c tie p_Id script feLog
   \<and> (\<forall>a. GetAssignment cfg c tie p_Id script feLog = Some a \<and> err a \<noteq> None \<longrightarrow>
         err a = Some watch_timeout \<and> returned_at a = 30 * Second \<and> ConnectionString a = '''')
   \<and> ((\<forall>p\<in>set script. snapshot p (p_Id, jsonkeys_connstring cfg) = None)
        \<and> \<not> Done c (30 * Second) \<and> 7 \<le> length script \<longrightarrow>
       (\<exists>a. GetAssignment cfg c tie p_Id script feLog = Some a
           \<and> err a = Some watch_timeout \<and> returned_at a = 30 * Second))"
  using GetAssignment_config [of "cfg\<lparr>interval_resultsTimeout := n\<rparr>" cfg c tie p_Id script feLog]
    GetAssignment_error [of cfg c tie p_Id script feLog]
    GetAssignment_no_record [of script p_Id cfg c tie feLog]
  by simp

text \<open>The theorem at seven polls that find no connection string, under a context never cancelled.\<close>

theorem GetAssignment_fixed_timeout_witness:
  "set never_assigned = {record_absent}
   \<and> snapshot record_absent (''p2'', jsonkeys_connstring matchmaker_config) = None
   \<and> \<not> Done None (30 * Second) \<and> 7 \<le> length never_assigned
   \<and> (\<exists>a. GetAssignment matchmaker_config None True ''p2'' never_assigned feLog_init = Some a
         \<and> err a = Some watch_timeout \<and> returned_at a = 30 * Second)"
proof -
  have 1: "\<forall>p\<in>set never_assigned. snapshot p (''p2'', jsonkeys_connstring matchmaker_config) = None"
    by (simp add: never_assigned_def record_absent_def)
  have 2: "\<not> Done None (30 * Second)" by (simp add: Done_def)
  have 3: "7 \<le> length never_assigned" by (simp add: never_assigned_def)
  have 4: "set never_assigned = {record_absent}"
    and 5: "snapshot record_absent (''p2'', jsonkeys_connstring matchmaker_config) = None"
    by (simp_all add: never_assigned_def record_absent_def)
  from 1 2 3 GetAssignment_fixed_timeout [where cfg = matchmaker_config and n = 30 and c = None
      and tie = True and p_Id = "''p2''" and script = never_assigned and feLog = feLog_init]
  have "\<exists>a. GetAssignment matchmaker_config None True ''p2'' never_assigned feLog_init = Some a
         \<and> err a = Some watch_timeout \<and> returned_at a = 30 * Second"
    by blast
  with 2 3 4 5 show ?thesis by blast
qed

text \<open>
  Claim C5 as stated fails: with \<open>interval.resultsTimeout\<close> configured to 1 second and
  no assignment ever written for \<open>p2\<close>, GetAssignment returns the timeout error after
  30 seconds, not after 1.
\<close>

theorem configured_timeout_counterexample:
  "interval_resultsTimeout (matchmaker_config\<lparr>interval_resultsTimeout := 1\<rparr>) = 1
   \<and> map_option returned_at
       (GetAssignment (matchmaker_config\<lparr>interval_resultsTimeout := 1\<rparr>) None True ''p2''
          never_assigned feLog_init) = Some (30 * Second)
   \<and> map_option err
       (GetAssignment (matchmaker_config\<lparr>interval_resultsTimeout := 1\<rparr>) None True ''p2''
          never_assigned feLog_init) = Some (Some watch_timeout)"
proof -
  have "watch_loop (matchmaker_config\<lparr>interval_resultsTimeout := 1\<rparr>) None ''p2'' never_assigned
          (WithFields feLog_init [(''key'', ''p2'')]) 0
        = watch_loop matchmaker_config None ''p2'' never_assigned
          (WithFields feLog_init [(''key'', ''p2'')]) 0"
    by (rule watch_loop_config) simp
  moreover have "status (watch_loop matchmaker_config None ''p2'' never_assigned
          (WithFields feLog_init [(''key'', ''p2'')]) 0) = Polling"
    and "clock (watch_loop matchmaker_config None ''p2'' never_assigned
          (WithFields feLog_init [(''key'', ''p2'')]) 0) = 35 * Second"
    by (simp_all add: never_assigned_def retrieveConnstring_live HGET_def
          record_absent_def Done_def ErrNil_def Let_def Second_def)
  ultimately show ?thesis
    by (simp add: GetAssignment_def watcher_def watcher_go_def Let_def matchmaker_config_def
        Second_def)
qed

subsection \<open>The delay between attempts\<close>




subsection \<open>The timeout path leaves the goroutine behind\<close>

text \<open>
  Claim C7 says that GetAssignment, returning on the timeout path, has torn down the poll
  loop and released what it held. The code does not: here the polls at 0, 5, 10, 15 and
  20 seconds find no connection string, and the poll started at 25 seconds takes 6
  seconds and finds it. GetAssignment returns the timeout error at 30 seconds, while the
  goroutine is inside \<open>retrieveConnstring\<close>; at 31 seconds the goroutine leaves the loop
  with the value and blocks in the send for ever: the channel is never closed and the
  goroutine never returns.
\<close>

theorem timeout_leaks_goroutine:
  "map_option err (GetAssignment matchmaker_config None False ''p1'' assigned_late feLog_init)
     = Some (Some watch_timeout)
   \<and> map_option returned_at
       (GetAssignment matchmaker_config None False ''p1'' assigned_late feLog_init)
     = Some (30 * Second)
   \<and> map_option status
       (GetAssignment_goroutine matchmaker_config None False ''p1'' assigned_late feLog_init)
     = Some (Blocked ''10.0.0.5:7777'')
   \<and> map_option clock
       (GetAssignment_goroutine matchmaker_config None False ''p1'' assigned_late feLog_init)
     = Some (31 * Second)
   \<and> map_option channel_ops
       (GetAssignment_goroutine matchmaker_config None False ''p1'' assigned_late feLog_init)
     = Some []"
proof -
  let ?lg = "WithFields feLog_init [(''key'', ''p1'')]"
  have loop: "status (watch_loop matchmaker_config ctx ''p1'' assigned_late ?lg 0)
                = AtSend ''10.0.0.5:7777''
      \<and> clock (watch_loop matchmaker_config ctx ''p1'' assigned_late ?lg 0) = 31 * Second
      \<and> filter is_chan (trace (watch_loop matchmaker_config ctx ''p1'' assigned_late ?lg 0)) = []"
    if "\<not> Done ctx (25 * Second)" for ctx
  proof -
    have live: "\<not> Done ctx t" if "t \<le> 25 * Second" for t
      using Done_mono [of ctx t "25 * Second"] that \<open>\<not> Done ctx (25 * Second)\<close> by blast
    have t: "\<not> Done ctx 0" "\<not> Done ctx (5 * Second)" "\<not> Done ctx (10 * Second)"
      "\<not> Done ctx (15 * Second)" "\<not> Done ctx (20 * Second)" "\<not> Done ctx (25 * Second)"
      by (rule live, simp add: Second_def)+
    show ?thesis
      using t
      by (simp add: assigned_late_def retrieveConnstring_live HGET_def
          record_absent_def record_present_def ErrNil_def Let_def matchmaker_config_def
          Second_def)
  qed
  have "\<exists>e. GetAssignment matchmaker_config None False ''p1'' assigned_late feLog_init
      = Some \<lparr>ConnectionString = '''', err = Some watch_timeout, returned_at = 30 * Second,
          effects = e\<rparr>"
    using loop [of None]
    by (simp add: GetAssignment_def watcher_def watcher_go_def Let_def Done_def Second_def)
  then obtain e where a: "GetAssignment matchmaker_config None False ''p1'' assigned_late feLog_init
      = Some \<lparr>ConnectionString = '''', err = Some watch_timeout, returned_at = 30 * Second,
          effects = e\<rparr>"
    by blast
  have "\<not> Done (WithCancel None (Some (Suc (30 * Second)))) (25 * Second)"
    by (simp add: WithCancel_def Done_def Second_def)
  from loop [OF this] a show ?thesis
    by (simp add: GetAssignment_goroutine_def watcher_def watcher_go_def Let_def channel_ops_def
        Second_def)
qed

subsection \<open>CreateRequest reports the outcome of the ledger write\<close>

text \<open>
  Claim C8. For every call of CreateRequest: when the ledger create succeeds the handler
  returns the result \<open>{Success: true, Error: ""}\<close> with a nil error; when the create
  fails with an error \<open>e\<close> it returns \<open>{Success: false, Error: e.Error()}\<close> together
  with \<open>e\<close> itself, and it has logged the message of \<open>e\<close> at error level: the failure
  is not swallowed.
\<close>

theorem CreateRequest_reports_outcome:
  "(Create redisConn (Id' g) (Properties g) = None \<longrightarrow>
      fst (CreateRequest feLog redisConn Create g)
        = (\<lparr>Success = True, Error = ''''\<rparr>, None))
   \<and> (\<forall>e. Create redisConn (Id' g) (Properties g) = Some e \<longrightarrow>
      fst (CreateRequest feLog redisConn Create g)
        = (\<lparr>Success = False, Error = message e\<rparr>, Some e)
      \<and> (\<exists>fs. Log ErrorLevel fs ''State storage error''
                 \<in> set (snd (CreateRequest feLog redisConn Create g))
               \<and> map_of fs ''error'' = Some (message e)))"
  by (auto simp: CreateRequest_def WithFields_def update_conv')

text \<open>The theorem at a create that succeeds and at a create that fails.\<close>

theorem CreateRequest_reports_outcome_witness:
  "fst (CreateRequest feLog_init LiveConn Create_succeeds player1)
     = (\<lparr>Success = True, Error = ''''\<rparr>, None)
   \<and> fst (CreateRequest feLog_init LiveConn Create_fails player1)
     = (\<lparr>Success = False, Error = ''connection refused''\<rparr>,
        Some (errors_New ''connection refused''))"
  using CreateRequest_reports_outcome [of Create_succeeds LiveConn player1 feLog_init]
    CreateRequest_reports_outcome [of Create_fails LiveConn player1 feLog_init]
  by (simp add: Create_succeeds_def Create_fails_def)

subsection \<open>The shared logger\<close>

text \<open>
  Claim C9 says that a watch or a store read for one key leaves the logging state seen by
  other calls unchanged. The code assigns the package-level \<open>feLog\<close> in \<open>watcher\<close> and
  in \<open>retrieveConnstring\<close>: the logger has no \<open>key\<close> field at start, carries
  \<open>key = p1\<close> after the watch for \<open>p1\<close>, and the error that a later CreateRequest for
  \<open>p2\<close> logs is tagged with \<open>key = p1\<close>.
\<close>

theorem watcher_mutates_shared_logger:
  "map_of feLog_init ''key'' = None
   \<and> map_of (logger (watcher matchmaker_config None listening ''p1''
                [record_present ''p1'' ''10.0.0.5:7777'' 5] feLog_init 0)) ''key'' = Some ''p1''
   \<and> snd (CreateRequest
            (logger (watcher matchmaker_config None listening ''p1''
                [record_present ''p1'' ''10.0.0.5:7777'' 5] feLog_init 0))
            LiveConn Create_fails player2) ! 1
     = Log ErrorLevel
         [(''app'', ''openmatch''), (''component'', ''statestorage''),
          (''caller'', ''frontendapi/apisrv/apisrv.go''), (''key'', ''p1''),
          (''error'', ''connection refused'')]
         ''State storage error''"
  by (simp add: run_simps CreateRequest_def Create_fails_def player2_def)

subsection \<open>Store connections are closed on every return path\<close>

text \<open>
  Claim C10. CreateRequest, DeleteRequest, DeleteAssignment and retrieveConnstring each
  take exactly one handle from the pool and close exactly that handle, as the last effect
  of every return path, success or error. In retrieveConnstring the close is deferred
  before the error of the acquisition is looked at: when the acquisition fails with
  \<open>e\<close> the function returns \<open>e\<close> and has called Close on the handle it was given.
\<close>

theorem store_connections_closed:
  "(let es = snd (CreateRequest feLog h Create g)
    in acquired es = [h] \<and> closed es = [h] \<and> last es = Close h)
   \<and> (let es = snd (DeleteRequest feLog h Delete g)
    in acquired es = [h] \<and> closed es = [h] \<and> last es = Close h)
   \<and> (let es = snd (DeleteAssignment feLog h Delete p_Id)
    in acquired es = [h] \<and> closed es = [h] \<and> last es = Close h)
   \<and> (let es = snd (snd (retrieveConnstring feLog p key field)); h' = fst (GetContext p)
    in acquired es = [h'] \<and> closed es = [h'] \<and> last es = Close h')
   \<and> (\<forall>e. acquire p = Some e \<longrightarrow>
        fst (retrieveConnstring feLog p key field) = ('''', Some e)
        \<and> Close (ErrorConn e) \<in> set (snd (snd (retrieveConnstring feLog p key field))))"
proof -
  have 1: "let es = snd (CreateRequest feLog h Create g)
    in acquired es = [h] \<and> closed es = [h] \<and> last es = Close h"
    by (simp add: CreateRequest_def Let_def split: option.splits)
  have 2: "let es = snd (DeleteRequest feLog h Delete g)
    in acquired es = [h] \<and> closed es = [h] \<and> last es = Close h"
    by (simp add: DeleteRequest_def Let_def split: option.splits)
  have 3: "let es = snd (DeleteAssignment feLog h Delete p_Id)
    in acquired es = [h] \<and> closed es = [h] \<and> last es = Close h"
    by (simp add: DeleteAssignment_def Let_def split: option.splits)
  have 4: "let es = snd (snd (retrieveConnstring feLog p key field)); h' = fst (GetContext p)
    in acquired es = [h'] \<and> closed es = [h'] \<and> last es = Close h'"
    by (cases "acquire p")
       (simp_all add: retrieveConnstring_failed_acquire retrieveConnstring_live GetContext_def)
  have 5: "\<forall>e. acquire p = Some e \<longrightarrow>
        fst (retrieveConnstring feLog p key field) = ('''', Some e)
        \<and> Close (ErrorConn e) \<in> set (snd (snd (retrieveConnstring feLog p key field)))"
    by (simp add: retrieveConnstring_failed_acquire)
  from 1 2 3 4 5 show ?thesis by blast
qed

text \<open>
  The theorem at a CreateRequest whose create fails and at a read that finds the pool
  exhausted.
\<close>

theorem store_connections_closed_witness:
  "acquired (snd (CreateRequest feLog_init LiveConn Create_fails player1)) = [LiveConn]
   \<and> closed (snd (CreateRequest feLog_init LiveConn Create_fails player1)) = [LiveConn]
   \<and> acquire pool_exhausted = Some (errors_New ''redigo: connection pool exhausted'')
   \<and> Close (ErrorConn (errors_New ''redigo: connection pool exhausted''))
       \<in> set (snd (snd (retrieveConnstring feLog_init pool_exhausted ''p1'' ''connstring'')))"
  using store_connections_closed [of feLog_init LiveConn Create_fails player1 Delete_succeeds
      "''p1''" pool_exhausted "''p1''" "''connstring''"]
  by (simp add: Let_def pool_exhausted_def)

end
